theory Spec2Isabelle
  imports Complex_Main "HOL-Library.Sublist"
begin

section \<open>Embedding of plot\_particles.py\<close>

text \<open>
  The script has two functions: \<open>load_particle_data\<close> reads two tables of an HDF5 file into
  numpy arrays, and \<open>plot_3d_particles\<close> subsamples the arrays, derives point sizes and
  issues a fixed sequence of matplotlib calls. The embedding threads one \<open>world\<close> through
  both: the files on disk, the file handles that are open and the log of opening and closing
  them, the numpy buffers that have been allocated, and the sequence of plotting calls issued
  so far. Python exceptions are values of type \<open>error\<close>. The style settings at module level
  (lines 14 to 35) and the entry point (lines 129 to 141) are not embedded.
\<close>

subsection \<open>Floating-point values\<close>

text \<open>
  A numpy float is a finite number, one of the two infinities, or not-a-number. Finite
  arithmetic is exact here: rounding, overflow to infinity and the sign of zero are not part
  of the model. Division by zero and operations on the special values follow IEEE 754, as
  numpy's array arithmetic does (it warns and does not raise).
\<close>

datatype npfloat = Fin real | PInf | NInf | NaN

fun fdiv :: "npfloat \<Rightarrow> npfloat \<Rightarrow> npfloat" where
  "fdiv NaN _ = NaN"
| "fdiv _ NaN = NaN"
| "fdiv (Fin a) (Fin b) =
     (if b = 0 then (if a = 0 then NaN else if 0 < a then PInf else NInf) else Fin (a / b))"
| "fdiv (Fin a) PInf = Fin 0"
| "fdiv (Fin a) NInf = Fin 0"
| "fdiv PInf (Fin b) = (if 0 \<le> b then PInf else NInf)"
| "fdiv NInf (Fin b) = (if 0 \<le> b then NInf else PInf)"
| "fdiv PInf PInf = NaN"
| "fdiv PInf NInf = NaN"
| "fdiv NInf PInf = NaN"
| "fdiv NInf NInf = NaN"

fun fmul :: "npfloat \<Rightarrow> npfloat \<Rightarrow> npfloat" where
  "fmul NaN _ = NaN"
| "fmul _ NaN = NaN"
| "fmul (Fin a) (Fin b) = Fin (a * b)"
| "fmul (Fin a) PInf = (if a = 0 then NaN else if 0 < a then PInf else NInf)"
| "fmul (Fin a) NInf = (if a = 0 then NaN else if 0 < a then NInf else PInf)"
| "fmul PInf (Fin b) = (if b = 0 then NaN else if 0 < b then PInf else NInf)"
| "fmul NInf (Fin b) = (if b = 0 then NaN else if 0 < b then NInf else PInf)"
| "fmul PInf PInf = PInf"
| "fmul PInf NInf = NInf"
| "fmul NInf PInf = NInf"
| "fmul NInf NInf = PInf"

fun fadd :: "npfloat \<Rightarrow> npfloat \<Rightarrow> npfloat" where
  "fadd NaN _ = NaN"
| "fadd _ NaN = NaN"
| "fadd (Fin a) (Fin b) = Fin (a + b)"
| "fadd (Fin a) PInf = PInf"
| "fadd (Fin a) NInf = NInf"
| "fadd PInf (Fin b) = PInf"
| "fadd NInf (Fin b) = NInf"
| "fadd PInf PInf = PInf"
| "fadd PInf NInf = NaN"
| "fadd NInf PInf = NaN"
| "fadd NInf NInf = NInf"

text \<open>\<open>np.maximum\<close>, the operation \<open>np.max\<close> reduces with: a NaN operand wins.\<close>

fun fmaximum :: "npfloat \<Rightarrow> npfloat \<Rightarrow> npfloat" where
  "fmaximum NaN _ = NaN"
| "fmaximum _ NaN = NaN"
| "fmaximum PInf _ = PInf"
| "fmaximum _ PInf = PInf"
| "fmaximum NInf b = b"
| "fmaximum a NInf = a"
| "fmaximum (Fin a) (Fin b) = Fin (max a b)"

subsection \<open>Errors and sequencing\<close>

datatype error =
    FileNotFoundError
  | KeyError string
  | IndexError
  | ValueError
  | TypeError
  | LibraryError string

subsection \<open>The HDF5 file\<close>

text \<open>
  A dataset has a shape and its elements in row-major order; a group maps names to
  datasets, a file maps names to groups.
\<close>

record dataset =
  dshape :: "nat list"
  ddata :: "npfloat list"

type_synonym h5group = "string \<rightharpoonup> dataset"

type_synonym h5file = "string \<rightharpoonup> h5group"

subsection \<open>numpy arrays\<close>

text \<open>
  An array is a view of a buffer: the buffer's address, the position of the first element,
  the extent of every axis and the step between neighbours along it. Slicing makes a new
  view of the same buffer; arithmetic allocates a new buffer.
\<close>

record ndarray =
  base :: nat
  offset :: nat
  shape :: "nat list"
  strides :: "nat list"

datatype sizes = Scalar npfloat | Array ndarray

subsection \<open>matplotlib calls\<close>

datatype axis = XAxis | YAxis | ZAxis

datatype sizes_arg = ScalarArg npfloat | ArrayArg "npfloat list"

record scatter_args =
  arg_xs :: "npfloat list"
  arg_ys :: "npfloat list"
  arg_zs :: "npfloat list"
  arg_s :: sizes_arg
  arg_c :: string
  arg_alpha :: real
  arg_edgecolors :: string
  arg_depthshade :: bool

datatype event =
    Figure nat nat
  | AddSubplot nat string
  | Scatter scatter_args
  | SetLabel axis string nat
  | SetTitle string nat
  | Grid bool
  | PaneFill axis bool
  | PaneEdgeColor axis string
  | SetBoxAspect "nat list"
  | ViewInit nat nat
  | SaveFig string
  | TightLayout
  | Show

text \<open>
  matplotlib is not part of the repository: which of its calls raise is a parameter of the
  renderer, a function from the call to the error it raises, if any.
\<close>

type_synonym library = "event \<Rightarrow> error option"

subsection \<open>The world and programs over it\<close>

datatype io_event = Open string | Close string

record world =
  files :: "string \<rightharpoonup> h5file"
  handles :: "string list"
  io :: "io_event list"
  heap :: "npfloat list list"
  trace :: "event list"

type_synonym 'a prog = "world \<Rightarrow> (error + 'a) \<times> world"

definition returnE :: "'a \<Rightarrow> 'a prog" where
  "returnE v w = (Inr v, w)"

definition liftE :: "error + 'a \<Rightarrow> 'a prog" where
  "liftE r w = (r, w)"

definition bindE :: "'a prog \<Rightarrow> ('a \<Rightarrow> 'b prog) \<Rightarrow> 'b prog" where
  "bindE m f w = (case m w of (Inl e, w') \<Rightarrow> (Inl e, w') | (Inr v, w') \<Rightarrow> f v w')"

text \<open>A plotting call is recorded when it is entered; if it raises, it is the last one.\<close>

definition call :: "library \<Rightarrow> event \<Rightarrow> unit prog" where
  "call lib ev w =
     ((case lib ev of None \<Rightarrow> Inr () | Some e \<Rightarrow> Inl e), w\<lparr>trace := trace w @ [ev]\<rparr>)"

fun calls :: "library \<Rightarrow> event list \<Rightarrow> unit prog" where
  "calls lib [] w = (Inr (), w)"
| "calls lib (ev # evs) w =
     (case call lib ev w of (Inl e, w') \<Rightarrow> (Inl e, w') | (Inr _, w') \<Rightarrow> calls lib evs w')"

subsection \<open>Array operations\<close>

text \<open>
  The buffer positions of an array's elements, in row-major order, and the elements read
  there. The arrays that the operations below make out of an array within its buffer lie
  within their buffers too; nothing is said about reading another array.
\<close>

fun positions :: "nat list \<Rightarrow> nat list \<Rightarrow> nat \<Rightarrow> nat list" where
  "positions (n # ns) (st # sts) off =
     concat (map (\<lambda>i. positions ns sts (off + i * st)) [0..<n])"
| "positions _ _ off = [off]"

definition elems :: "npfloat list list \<Rightarrow> ndarray \<Rightarrow> npfloat list" where
  "elems h a = map (\<lambda>p. (h ! base a) ! p) (positions (shape a) (strides a) (offset a))"

text \<open>The strides of a freshly allocated (C-contiguous) array.\<close>

fun contiguous :: "nat list \<Rightarrow> nat list" where
  "contiguous [] = []"
| "contiguous (n # ns) = prod_list ns # contiguous ns"

definition new_array :: "nat list \<Rightarrow> npfloat list \<Rightarrow> world \<Rightarrow> ndarray \<times> world" where
  "new_array shp vs w =
     (\<lparr>base = length (heap w), offset = 0, shape = shp, strides = contiguous shp\<rparr>,
      w\<lparr>heap := heap w @ [vs]\<rparr>)"

text \<open>Arithmetic of an array with a scalar: a new array of the same shape.\<close>

definition ufunc :: "(npfloat \<Rightarrow> npfloat) \<Rightarrow> ndarray \<Rightarrow> world \<Rightarrow> ndarray \<times> world" where
  "ufunc f a w = new_array (shape a) (map f (elems (heap w) a)) w"

text \<open>\<open>a[:, j]\<close>: needs two axes and \<open>j\<close> within the second.\<close>

definition column :: "ndarray \<Rightarrow> nat \<Rightarrow> error + ndarray" where
  "column a j =
     (case (shape a, strides a) of
        (n # m # ns, st # t # sts) \<Rightarrow>
          if j < m then Inr (a\<lparr>offset := offset a + j * t, shape := n # ns, strides := st # sts\<rparr>)
          else Inl IndexError
      | _ \<Rightarrow> Inl IndexError)"

text \<open>\<open>a[::k]\<close> for a positive step \<open>k\<close>: needs one axis at least.\<close>

definition slice_step :: "ndarray \<Rightarrow> nat \<Rightarrow> error + ndarray" where
  "slice_step a k =
     (case (shape a, strides a) of
        (n # ns, st # sts) \<Rightarrow> Inr (a\<lparr>shape := ((n + k - 1) div k) # ns, strides := (st * k) # sts\<rparr>)
      | _ \<Rightarrow> Inl IndexError)"

text \<open>An array with one axis.\<close>

definition is_1d :: "ndarray \<Rightarrow> bool" where
  "is_1d a \<longleftrightarrow> length (shape a) = 1 \<and> length (strides a) = 1"

text \<open>\<open>len(a)\<close>: the extent of the first axis; an array without axes has no length.\<close>

definition len :: "ndarray \<Rightarrow> error + nat" where
  "len a = (case shape a of [] \<Rightarrow> Inl TypeError | n # _ \<Rightarrow> Inr n)"

text \<open>\<open>np.max\<close> over all elements; an empty array has no maximum.\<close>

definition np_max :: "npfloat list \<Rightarrow> error + npfloat" where
  "np_max vs = (case vs of [] \<Rightarrow> Inl ValueError | v # rest \<Rightarrow> Inr (foldl fmaximum v rest))"

subsection \<open>String formatting\<close>

fun str_nat :: "nat \<Rightarrow> string" where
  "str_nat n =
     (if n < 10 then [''0123456789'' ! n]
      else str_nat (n div 10) @ [''0123456789'' ! (n mod 10)])"

declare str_nat.simps [simp del]

definition str_int :: "int \<Rightarrow> string" where
  "str_int i = (if i < 0 then CHR ''-'' # str_nat (nat (- i)) else str_nat (nat i))"

text \<open>The format \<open>{:,}\<close>: a comma before every group of three digits, from the right.\<close>

fun group3 :: "string \<Rightarrow> string" where
  "group3 (a # b # d # e # rest) = a # b # d # CHR '','' # group3 (e # rest)"
| "group3 ds = ds"

definition commas :: "nat \<Rightarrow> string" where
  "commas n = rev (group3 (rev (str_nat n)))"

subsection \<open>load\_particle\_data\<close>

text \<open>
  \<open>with h5py.File(filename, 'r') as f\<close>: a missing file raises before any handle exists;
  otherwise the handle is open while the body runs and is closed when the body is left,
  by return or by exception.
\<close>

definition with_File :: "string \<Rightarrow> (h5file \<Rightarrow> 'a prog) \<Rightarrow> 'a prog" where
  "with_File filename body w =
     (case files w filename of
        None \<Rightarrow> (Inl FileNotFoundError, w)
      | Some f \<Rightarrow>
          (case body f (w\<lparr>handles := filename # handles w, io := io w @ [Open filename]\<rparr>) of
             (r, w') \<Rightarrow>
               (r, w'\<lparr>handles := remove1 filename (handles w'),
                       io := io w' @ [Close filename]\<rparr>)))"

definition getitem :: "(string \<rightharpoonup> 'v) \<Rightarrow> string \<Rightarrow> error + 'v" where
  "getitem m k = (case m k of None \<Rightarrow> Inl (KeyError k) | Some v \<Rightarrow> Inr v)"

text \<open>\<open>dset[:]\<close>: the whole table as a new array; h5py refuses a slice of a scalar dataset.\<close>

definition read_all :: "dataset \<Rightarrow> ndarray prog" where
  "read_all d w =
     (if dshape d = [] then (Inl ValueError, w)
      else (case new_array (dshape d) (ddata d) w of (a, w') \<Rightarrow> (Inr a, w')))"

definition cm_per_kpc :: npfloat where
  "cm_per_kpc = Fin (30857 * 10 ^ 17)"

definition load_particle_data ::
  "string \<Rightarrow> int \<Rightarrow> (ndarray \<times> ndarray \<times> ndarray \<times> ndarray option) prog" where
  "load_particle_data filename part_type =
     with_File filename (\<lambda>f.
       bindE (liftE (getitem f (''PartType'' @ str_int part_type))) (\<lambda>group.
       bindE (liftE (getitem group ''Coordinates'')) (\<lambda>table.
       bindE (read_all table) (\<lambda>raw.
       bindE (\<lambda>w. case ufunc (\<lambda>v. fdiv v cm_per_kpc) raw w of (a, w') \<Rightarrow> (Inr a, w')) (\<lambda>coords.
       bindE (liftE (column coords 0)) (\<lambda>x.
       bindE (liftE (column coords 1)) (\<lambda>y.
       bindE (liftE (column coords 2)) (\<lambda>z.
       bindE (if group ''Masses'' \<noteq> None
              then bindE (liftE (getitem group ''Masses'')) (\<lambda>mtable.
                   bindE (read_all mtable) (\<lambda>m. returnE (Some m)))
              else returnE None) (\<lambda>masses.
       returnE (x, y, z, masses))))))))))"

subsection \<open>plot\_3d\_particles\<close>

text \<open>Lines 81 to 86: the arrays are replaced by strided views only if \<open>subsample > 1\<close>.\<close>

definition subsample_step ::
  "ndarray \<Rightarrow> ndarray \<Rightarrow> ndarray \<Rightarrow> ndarray option \<Rightarrow> int
   \<Rightarrow> error + (ndarray \<times> ndarray \<times> ndarray \<times> ndarray option)" where
  "subsample_step x y z masses subsample =
     (if 1 < subsample then
        (case slice_step x (nat subsample) of Inl e \<Rightarrow> Inl e | Inr x' \<Rightarrow>
        (case slice_step y (nat subsample) of Inl e \<Rightarrow> Inl e | Inr y' \<Rightarrow>
        (case slice_step z (nat subsample) of Inl e \<Rightarrow> Inl e | Inr z' \<Rightarrow>
        (case masses of
           None \<Rightarrow> Inr (x', y', z', None)
         | Some m \<Rightarrow>
             (case slice_step m (nat subsample) of Inl e \<Rightarrow> Inl e
              | Inr m' \<Rightarrow> Inr (x', y', z', Some m'))))))
      else Inr (x, y, z, masses))"

text \<open>Lines 89 to 91: the scalar 0.1, or three array operations on the masses.\<close>

definition point_sizes :: "ndarray option \<Rightarrow> sizes prog" where
  "point_sizes masses w =
     (case masses of
        None \<Rightarrow> (Inr (Scalar (Fin 0.1)), w)
      | Some m \<Rightarrow>
          (case np_max (elems (heap w) m) of
             Inl e \<Rightarrow> (Inl e, w)
           | Inr mx \<Rightarrow>
               (case ufunc (\<lambda>v. fdiv v mx) m w of (q, w1) \<Rightarrow>
               (case ufunc (fmul (Fin 4.9)) q w1 of (p, w2) \<Rightarrow>
               (case ufunc (fadd (Fin 0.1)) p w2 of (r, w3) \<Rightarrow>
                  (Inr (Array r), w3))))))"

text \<open>Lines 94 to 101: the one scatter call, with the arrays as they are in the heap.\<close>

definition scatter_call ::
  "npfloat list list \<Rightarrow> ndarray \<Rightarrow> ndarray \<Rightarrow> ndarray \<Rightarrow> sizes \<Rightarrow> event" where
  "scatter_call h x y z sz =
     Scatter \<lparr>arg_xs = elems h x, arg_ys = elems h y, arg_zs = elems h z,
              arg_s = (case sz of Scalar v \<Rightarrow> ScalarArg v | Array a \<Rightarrow> ArrayArg (elems h a)),
              arg_c = ''royalblue'', arg_alpha = 0.3, arg_edgecolors = ''none'',
              arg_depthshade = True\<rparr>"

definition scatter ::
  "library \<Rightarrow> ndarray \<Rightarrow> ndarray \<Rightarrow> ndarray \<Rightarrow> sizes \<Rightarrow> unit prog" where
  "scatter lib x y z sz w = call lib (scatter_call (heap w) x y z sz) w"

text \<open>Lines 77 and 78, lines 104 to 106, and lines 109 to 127 for a title count \<open>n\<close>.\<close>

definition figure_setup :: "event list" where
  "figure_setup = [Figure 10 8, AddSubplot 111 ''3d'']"

definition axis_labels :: "event list" where
  "axis_labels =
     [SetLabel XAxis ''X [kpc]'' 12, SetLabel YAxis ''Y [kpc]'' 12, SetLabel ZAxis ''Z [kpc]'' 12]"

definition finishing :: "nat \<Rightarrow> event list" where
  "finishing n =
     [SetTitle (''3D Particle Distribution (N='' @ commas n @ '')'') 14,
      Grid False,
      PaneFill XAxis False, PaneFill YAxis False, PaneFill ZAxis False,
      PaneEdgeColor XAxis ''w'', PaneEdgeColor YAxis ''w'', PaneEdgeColor ZAxis ''w'',
      SetBoxAspect [1, 1, 1],
      ViewInit 30 45,
      SaveFig ''single_nebula_1.png'',
      TightLayout,
      Show]"

text \<open>Lines 103 to 127: \<open>len(x)\<close> is evaluated for the title, after the axis labels are set.\<close>

definition decorate :: "library \<Rightarrow> ndarray \<Rightarrow> unit prog" where
  "decorate lib x =
     bindE (calls lib axis_labels) (\<lambda>_.
     bindE (liftE (len x)) (\<lambda>n.
     calls lib (finishing n)))"

definition plot_3d_particles ::
  "library \<Rightarrow> ndarray \<Rightarrow> ndarray \<Rightarrow> ndarray \<Rightarrow> ndarray option \<Rightarrow> int \<Rightarrow> unit prog" where
  "plot_3d_particles lib x y z masses subsample =
     bindE (calls lib figure_setup) (\<lambda>_.
     bindE (liftE (subsample_step x y z masses subsample)) (\<lambda>(x, y, z, masses).
     bindE (point_sizes masses) (\<lambda>sz.
     bindE (scatter lib x y z sz) (\<lambda>_.
     decorate lib x))))"

subsection \<open>Observations\<close>

text \<open>An array as a value: its shape and its elements.\<close>

definition array_value :: "npfloat list list \<Rightarrow> ndarray \<Rightarrow> nat list \<times> npfloat list" where
  "array_value h a = (shape a, elems h a)"

definition returned ::
  "npfloat list list \<Rightarrow> ndarray \<times> ndarray \<times> ndarray \<times> ndarray option
   \<Rightarrow> (nat list \<times> npfloat list) \<times> (nat list \<times> npfloat list) \<times> (nat list \<times> npfloat list)
      \<times> (nat list \<times> npfloat list) option" where
  "returned h r =
     (case r of (x, y, z, masses) \<Rightarrow>
        (array_value h x, array_value h y, array_value h z, map_option (array_value h) masses))"

text \<open>What a call of a program leaves visible: its result, with the arrays as values.\<close>

definition outcome ::
  "(error + ndarray \<times> ndarray \<times> ndarray \<times> ndarray option) \<times> world
   \<Rightarrow> error + (nat list \<times> npfloat list) \<times> (nat list \<times> npfloat list)
        \<times> (nat list \<times> npfloat list) \<times> (nat list \<times> npfloat list) option" where
  "outcome rw = (case rw of (r, w') \<Rightarrow> map_sum id (returned (heap w')) r)"

text \<open>The entry in row \<open>i\<close> and column \<open>j\<close> of a table with two axes.\<close>

definition raw_coords :: "dataset \<Rightarrow> nat \<Rightarrow> nat \<Rightarrow> npfloat" where
  "raw_coords d i j = ddata d ! (i * (dshape d ! 1) + j)"

text \<open>A strictly positive maximum, and a size within the range 0.1 to 5.0.\<close>

fun positive :: "npfloat \<Rightarrow> bool" where
  "positive (Fin a) \<longleftrightarrow> 0 < a"
| "positive PInf \<longleftrightarrow> True"
| "positive NInf \<longleftrightarrow> False"
| "positive NaN \<longleftrightarrow> False"

fun in_size_range :: "npfloat \<Rightarrow> bool" where
  "in_size_range (Fin a) \<longleftrightarrow> 0.1 \<le> a \<and> a \<le> 5"
| "in_size_range PInf \<longleftrightarrow> False"
| "in_size_range NInf \<longleftrightarrow> False"
| "in_size_range NaN \<longleftrightarrow> False"

text \<open>The plotting calls a call of a program has added to the trace.\<close>

definition issued :: "world \<Rightarrow> world \<Rightarrow> event list" where
  "issued w w' = drop (length (trace w)) (trace w')"

text \<open>The three calls that end the renderer: saving, tightening the layout, showing.\<close>

fun is_final :: "event \<Rightarrow> bool" where
  "is_final (SaveFig _) = True"
| "is_final TightLayout = True"
| "is_final Show = True"
| "is_final _ = False"

subsection \<open>The specification's subsampling\<close>

text \<open>
  In the words of the specification: stride \<open>k\<close> on \<open>N\<close> elements yields
  \<open>ceil(N/k)\<close> points, the elements at indices \<open>0, k, 2k, ...\<close>.
\<close>

definition spec_subsample :: "'a list \<Rightarrow> int \<Rightarrow> 'a list" where
  "spec_subsample vs k =
     map (\<lambda>j. vs ! (j * nat k)) [0..<nat \<lceil>real (length vs) / real_of_int k\<rceil>]"

subsection \<open>Example inputs\<close>

text \<open>A library none of whose calls raises.\<close>

definition no_failures :: library where
  "no_failures ev = None"

text \<open>
  The file of the specification's end-to-end scenario: \<open>PartType0/Coordinates\<close> is
  \<open>[[3.0857e21, 0, 0], [0, 3.0857e21, 0]]\<close> and there is no \<open>Masses\<close> table.
\<close>

definition scenario_coordinates :: dataset where
  "scenario_coordinates =
     \<lparr>dshape = [2, 3],
      ddata = [Fin (30857 * 10 ^ 17), Fin 0, Fin 0, Fin 0, Fin (30857 * 10 ^ 17), Fin 0]\<rparr>"

definition scenario_file :: h5file where
  "scenario_file = [''PartType0'' \<mapsto> [''Coordinates'' \<mapsto> scenario_coordinates]]"

definition scenario_world :: world where
  "scenario_world =
     \<lparr>files = [''single_nebula_1.hdf5'' \<mapsto> scenario_file], handles = [], io = [],
      heap = [], trace = []\<rparr>"

text \<open>
  A world after loading: one buffer with three rows of coordinates, one with three masses,
  and the four arrays over them.
\<close>

definition loaded_world :: world where
  "loaded_world =
     \<lparr>files = Map.empty, handles = [], io = [],
      heap = [[Fin 1, Fin 2, Fin 3, Fin 4, Fin 5, Fin 6, Fin 7, Fin 8, Fin 9],
              [Fin 2, Fin 4, Fin 8]],
      trace = []\<rparr>"

definition loaded_x :: ndarray where
  "loaded_x = \<lparr>base = 0, offset = 0, shape = [3], strides = [3]\<rparr>"

definition loaded_y :: ndarray where
  "loaded_y = \<lparr>base = 0, offset = 1, shape = [3], strides = [3]\<rparr>"

definition loaded_z :: ndarray where
  "loaded_z = \<lparr>base = 0, offset = 2, shape = [3], strides = [3]\<rparr>"

definition loaded_masses :: ndarray where
  "loaded_masses = \<lparr>base = 1, offset = 0, shape = [3], strides = [1]\<rparr>"

text \<open>
  A heap with three mass buffers: all zero, one negative entry, and no entries at all.
\<close>

definition mass_world :: world where
  "mass_world =
     \<lparr>files = Map.empty, handles = [], io = [],
      heap = [[Fin 0, Fin 0, Fin 0], [Fin (- 1), Fin 2], []],
      trace = []\<rparr>"

definition zero_masses :: ndarray where
  "zero_masses = \<lparr>base = 0, offset = 0, shape = [3], strides = [1]\<rparr>"

definition signed_masses :: ndarray where
  "signed_masses = \<lparr>base = 1, offset = 0, shape = [2], strides = [1]\<rparr>"

definition empty_masses :: ndarray where
  "empty_masses = \<lparr>base = 2, offset = 0, shape = [0], strides = [1]\<rparr>"

text \<open>A file whose group \<open>PartType0\<close> holds no table.\<close>

definition bare_group :: h5group where
  "bare_group = Map.empty"

definition bare_file :: h5file where
  "bare_file = [''PartType0'' \<mapsto> bare_group]"

definition bare_world :: world where
  "bare_world =
     \<lparr>files = [''single_nebula_1.hdf5'' \<mapsto> bare_file], handles = [], io = [], heap = [],
      trace = []\<rparr>"

section \<open>Reasoning about programs\<close>

lemma bindE_cases:
  assumes "bindE m f w = (r, w')"
  obtains (raised) e where "m w = (Inl e, w')" and "r = Inl e"
        | (returned) v w1 where "m w = (Inr v, w1)" and "f v w1 = (r, w')"
  using assms by (auto simp: bindE_def split: prod.splits sum.splits)

lemma liftE_iff [simp]: "liftE a w = (r, w') \<longleftrightarrow> r = a \<and> w' = w"
  by (auto simp: liftE_def)

lemma returnE_iff [simp]: "returnE v w = (r, w') \<longleftrightarrow> r = Inr v \<and> w' = w"
  by (auto simp: returnE_def)

text \<open>A sequence of calls adds a prefix of itself to the trace, all of it unless one raises.\<close>

lemma calls_trace:
  "calls lib evs w = (r, w') \<Longrightarrow>
   \<exists>pre. w' = w\<lparr>trace := trace w @ pre\<rparr> \<and> prefix pre evs \<and> (r = Inr () \<longrightarrow> pre = evs)
         \<and> (pre = evs \<or> (\<exists>e. r = Inl e))"
proof (induction evs arbitrary: w)
  case Nil
  then show ?case by simp
next
  case (Cons ev evs)
  show ?case
  proof (cases "lib ev")
    case None
    with Cons.prems have "calls lib evs (w\<lparr>trace := trace w @ [ev]\<rparr>) = (r, w')"
      by (simp add: call_def)
    from Cons.IH [OF this] obtain pre where
      pre: "w' = w\<lparr>trace := trace w @ ev # pre\<rparr>" "prefix pre evs"
           "r = Inr () \<longrightarrow> pre = evs" "pre = evs \<or> (\<exists>e. r = Inl e)"
      by auto
    show ?thesis
      by (rule exI [of _ "ev # pre"]) (use pre in simp)
  next
    case (Some e)
    with Cons.prems have "w' = w\<lparr>trace := trace w @ [ev]\<rparr>" "r = Inl e"
      by (simp_all add: call_def)
    then show ?thesis
      by (intro exI [of _ "[ev]"]) simp
  qed
qed

lemma elems_append: "base a < length h \<Longrightarrow> elems (h @ bs) a = elems h a"
  by (simp add: elems_def nth_append)

lemma issued_update [simp]:
  "issued w (w\<lparr>heap := h, trace := trace w @ pre\<rparr>) = pre"
  by (simp add: issued_def)

section \<open>The renderer's runs\<close>

lemma decorate_run:
  assumes "decorate lib x w = (r, w')"
  shows "\<exists>pre n. w' = w\<lparr>trace := trace w @ pre\<rparr> \<and> prefix pre (axis_labels @ finishing n)
           \<and> (r = Inr () \<longrightarrow> len x = Inr n \<and> pre = axis_labels @ finishing n)"
  using assms unfolding decorate_def
proof (rule bindE_cases)
  fix e assume "calls lib axis_labels w = (Inl e, w')" "r = Inl e"
  then show ?thesis
    by (auto dest!: calls_trace)
next
  fix v w1
  assume 1: "calls lib axis_labels w = (Inr v, w1)"
    and 2: "bindE (liftE (len x)) (\<lambda>n. calls lib (finishing n)) w1 = (r, w')"
  from 1 have w1: "w1 = w\<lparr>trace := trace w @ axis_labels\<rparr>"
    by (auto dest!: calls_trace)
  from 2 show ?thesis
  proof (rule bindE_cases)
    fix e assume "liftE (len x) w1 = (Inl e, w')" "r = Inl e"
    then show ?thesis
      using w1 by (intro exI [of _ axis_labels]) simp
  next
    fix n w2
    assume "liftE (len x) w1 = (Inr n, w2)" and 3: "calls lib (finishing n) w2 = (r, w')"
    then have n: "len x = Inr n" "w2 = w1" by simp_all
    from calls_trace [OF 3] obtain pre where
      "w' = w2\<lparr>trace := trace w2 @ pre\<rparr>" "prefix pre (finishing n)"
      "r = Inr () \<longrightarrow> pre = finishing n"
      by blast
    then show ?thesis
      using n w1 by (intro exI [of _ "axis_labels @ pre"] exI [of _ n]) simp
  qed
qed

lemma point_sizes_run:
  assumes "point_sizes masses w = (r, w')"
  shows "\<exists>bs. w' = w\<lparr>heap := heap w @ bs\<rparr>"
proof (cases masses)
  case None
  with assms show ?thesis
    by (intro exI [of _ "[]"]) (simp add: point_sizes_def)
next
  case (Some m)
  show ?thesis
  proof (cases "np_max (elems (heap w) m)")
    case (Inl e)
    with assms Some show ?thesis
      by (intro exI [of _ "[]"]) (simp add: point_sizes_def)
  next
    case (Inr mx)
    with assms Some show ?thesis
      by (auto simp: point_sizes_def ufunc_def new_array_def)
  qed
qed

lemma point_sizes_trace:
  "point_sizes masses (w\<lparr>trace := t\<rparr>) =
   (case point_sizes masses w of (r, w') \<Rightarrow> (r, w'\<lparr>trace := t\<rparr>))"
  by (simp add: point_sizes_def ufunc_def new_array_def split: option.splits sum.splits)

text \<open>
  Every run of the renderer, by where it stops: either in the figure setup, the subsampling
  or the size computation, or after the one scatter call with the subsampled arrays and the
  sizes computed from them. The heap only grows, by the buffers of the size computation.
\<close>

lemma plot_run:
  assumes "plot_3d_particles lib x y z masses subsample w = (r, w')"
  shows "\<exists>bs pre. w' = w\<lparr>heap := heap w @ bs, trace := trace w @ pre\<rparr> \<and>
    ((\<exists>e. r = Inl e) \<and> prefix pre figure_setup \<or>
     (\<exists>x1 y1 z1 m1 sz n.
        subsample_step x y z masses subsample = Inr (x1, y1, z1, m1) \<and>
        point_sizes m1 w = (Inr sz, w\<lparr>heap := heap w @ bs\<rparr>) \<and>
        prefix pre (figure_setup @ scatter_call (heap w @ bs) x1 y1 z1 sz # axis_labels @ finishing n) \<and>
        (r = Inr () \<longrightarrow> len x1 = Inr n \<and>
           pre = figure_setup @ scatter_call (heap w @ bs) x1 y1 z1 sz # axis_labels @ finishing n)))"
  using assms unfolding plot_3d_particles_def
proof (rule bindE_cases)
  fix e assume c: "calls lib figure_setup w = (Inl e, w')" and r: "r = Inl e"
  from calls_trace [OF c] obtain pre where
    "w' = w\<lparr>trace := trace w @ pre\<rparr>" "prefix pre figure_setup"
    by blast
  then show ?thesis
    using r by (intro exI [of _ "[]"] exI [of _ pre]) simp
next
  fix v w1
  assume "calls lib figure_setup w = (Inr v, w1)"
  then have w1: "w1 = w\<lparr>trace := trace w @ figure_setup\<rparr>"
    by (auto dest!: calls_trace)
  assume "bindE (liftE (subsample_step x y z masses subsample))
            (\<lambda>(x, y, z, masses).
               bindE (point_sizes masses) (\<lambda>sz. bindE (scatter lib x y z sz) (\<lambda>_. decorate lib x)))
            w1 = (r, w')"
  then show ?thesis
  proof (rule bindE_cases)
    fix e assume "liftE (subsample_step x y z masses subsample) w1 = (Inl e, w')" "r = Inl e"
    then show ?thesis
      using w1 by (intro exI [of _ "[]"] exI [of _ figure_setup]) simp
  next
    fix v2 w2
    assume "liftE (subsample_step x y z masses subsample) w1 = (Inr v2, w2)"
    then have sub: "subsample_step x y z masses subsample = Inr v2" and w2: "w2 = w1"
      by simp_all
    obtain x1 y1 z1 m1 where v2: "v2 = (x1, y1, z1, m1)"
      by (cases v2) auto
    assume "(case v2 of (x, y, z, masses) \<Rightarrow>
               bindE (point_sizes masses) (\<lambda>sz. bindE (scatter lib x y z sz) (\<lambda>_. decorate lib x)))
            w2 = (r, w')"
    then have "bindE (point_sizes m1) (\<lambda>sz. bindE (scatter lib x1 y1 z1 sz) (\<lambda>_. decorate lib x1))
            w1 = (r, w')"
      by (simp add: v2 w2)
    then show ?thesis
    proof (rule bindE_cases)
      fix e assume ps: "point_sizes m1 w1 = (Inl e, w')" and "r = Inl e"
      from point_sizes_run [OF ps] obtain bs where "w' = w1\<lparr>heap := heap w1 @ bs\<rparr>" ..
      then show ?thesis
        using w1 \<open>r = Inl e\<close> by (intro exI [of _ bs] exI [of _ figure_setup]) simp
    next
      fix sz w3
      assume ps: "point_sizes m1 w1 = (Inr sz, w3)"
      obtain r0 w0 where p0: "point_sizes m1 w = (r0, w0)"
        by force
      from point_sizes_run [OF p0] obtain bs where w0: "w0 = w\<lparr>heap := heap w @ bs\<rparr>" ..
      from ps p0 have r0: "r0 = Inr sz" and "w3 = w0\<lparr>trace := trace w @ figure_setup\<rparr>"
        by (simp_all add: w1 point_sizes_trace)
      then have w3: "w3 = w1\<lparr>heap := heap w1 @ bs\<rparr>"
        by (simp add: w0 w1)
      have ps': "point_sizes m1 w = (Inr sz, w\<lparr>heap := heap w @ bs\<rparr>)"
        using p0 r0 w0 by simp
      assume "bindE (scatter lib x1 y1 z1 sz) (\<lambda>_. decorate lib x1) w3 = (r, w')"
      then show ?thesis
      proof (rule bindE_cases)
        fix e assume "scatter lib x1 y1 z1 sz w3 = (Inl e, w')" and r: "r = Inl e"
        then have "w' = w3\<lparr>trace := trace w3 @ [scatter_call (heap w3) x1 y1 z1 sz]\<rparr>"
          by (simp add: scatter_def call_def)
        then show ?thesis
          using w1 w3 r sub v2 ps'
          by (intro exI [of _ bs] exI [of _ "figure_setup @ [scatter_call (heap w @ bs) x1 y1 z1 sz]"])
             simp
      next
        fix u w4
        assume "scatter lib x1 y1 z1 sz w3 = (Inr u, w4)"
        then have w4: "w4 = w3\<lparr>trace := trace w3 @ [scatter_call (heap w3) x1 y1 z1 sz]\<rparr>"
          by (simp add: scatter_def call_def)
        assume "decorate lib x1 w4 = (r, w')"
        from decorate_run [OF this] obtain pre n where
          pre: "w' = w4\<lparr>trace := trace w4 @ pre\<rparr>" "prefix pre (axis_labels @ finishing n)"
               "r = Inr () \<longrightarrow> len x1 = Inr n \<and> pre = axis_labels @ finishing n"
          by blast
        show ?thesis
          using w1 w3 w4 pre sub v2 ps'
          by (intro exI [of _ bs]
                exI [of _ "figure_setup @ scatter_call (heap w @ bs) x1 y1 z1 sz # pre"] disjI2
                exI [of _ x1] exI [of _ y1] exI [of _ z1] exI [of _ m1] exI [of _ sz] exI [of _ n]
                conjI)
             simp_all
      qed
    qed
  qed
qed

lemma final_calls:
  "filter is_final (figure_setup @ scatter_call h x y z sz # axis_labels @ finishing n) =
   [SaveFig ''single_nebula_1.png'', TightLayout, Show]"
  by (simp add: figure_setup_def scatter_call_def axis_labels_def finishing_def)

lemma no_final_calls: "prefix pre figure_setup \<Longrightarrow> filter is_final pre = []"
proof -
  assume "prefix pre figure_setup"
  then have "prefix (filter is_final pre) (filter is_final figure_setup)"
    by (rule filter_mono_prefix)
  then show ?thesis
    by (simp add: figure_setup_def)
qed

text \<open>The definitions a run on concrete inputs unfolds.\<close>

lemmas run_defs =
  plot_3d_particles_def decorate_def scatter_def scatter_call_def point_sizes_def
  subsample_step_def slice_step_def len_def np_max_def ufunc_def new_array_def elems_def
  bindE_def liftE_def returnE_def call_def figure_setup_def axis_labels_def finishing_def
  issued_def no_failures_def loaded_world_def loaded_x_def loaded_y_def loaded_z_def
  loaded_masses_def upt_conv_Cons

section \<open>The claims\<close>

text \<open>
  C6. Whatever the inputs and whichever library call raises, the saving, layout and showing
  calls that a run of the renderer issues are an initial part of: save to
  \<open>single_nebula_1.png\<close>, then tighten the layout, then show; a run that returns normally
  has issued exactly these three, in this order. So the save always precedes the
  layout-tightening.
\<close>

theorem renderer_final_calls_in_order:
  "case plot_3d_particles lib x y z masses subsample w of
     (r, w') \<Rightarrow>
       prefix (filter is_final (issued w w')) [SaveFig ''single_nebula_1.png'', TightLayout, Show]
       \<and> (r = Inr () \<longrightarrow>
            filter is_final (issued w w') = [SaveFig ''single_nebula_1.png'', TightLayout, Show])"
proof -
  obtain r w' where run: "plot_3d_particles lib x y z masses subsample w = (r, w')"
    by force
  from plot_run [OF run] obtain bs pre where
    w': "w' = w\<lparr>heap := heap w @ bs, trace := trace w @ pre\<rparr>" and
    pre: "(\<exists>e. r = Inl e) \<and> prefix pre figure_setup \<or>
       (\<exists>x1 y1 z1 m1 sz n.
          prefix pre (figure_setup @ scatter_call (heap w @ bs) x1 y1 z1 sz # axis_labels @ finishing n) \<and>
          (r = Inr () \<longrightarrow>
             pre = figure_setup @ scatter_call (heap w @ bs) x1 y1 z1 sz # axis_labels @ finishing n))"
    by blast
  from pre have "prefix (filter is_final pre) [SaveFig ''single_nebula_1.png'', TightLayout, Show]
       \<and> (r = Inr () \<longrightarrow> filter is_final pre = [SaveFig ''single_nebula_1.png'', TightLayout, Show])"
  proof
    assume "(\<exists>e. r = Inl e) \<and> prefix pre figure_setup"
    then show ?thesis
      by (auto simp: no_final_calls)
  next
    assume "\<exists>x1 y1 z1 m1 sz n.
          prefix pre (figure_setup @ scatter_call (heap w @ bs) x1 y1 z1 sz # axis_labels @ finishing n) \<and>
          (r = Inr () \<longrightarrow>
             pre = figure_setup @ scatter_call (heap w @ bs) x1 y1 z1 sz # axis_labels @ finishing n)"
    then obtain x1 y1 z1 sz n where
      p: "prefix pre (figure_setup @ scatter_call (heap w @ bs) x1 y1 z1 sz # axis_labels @ finishing n)"
      and q: "r = Inr () \<longrightarrow>
             pre = figure_setup @ scatter_call (heap w @ bs) x1 y1 z1 sz # axis_labels @ finishing n"
      by blast
    have "prefix (filter is_final pre) [SaveFig ''single_nebula_1.png'', TightLayout, Show]"
      using filter_mono_prefix [OF p, of is_final] unfolding final_calls .
    moreover have "filter is_final pre = [SaveFig ''single_nebula_1.png'', TightLayout, Show]"
      if "r = Inr ()"
      using q that final_calls [of "heap w @ bs" x1 y1 z1 sz n] by simp
    ultimately show ?thesis
      by blast
  qed
  then show ?thesis
    by (simp add: run w')
qed

theorem renderer_final_calls_in_order_witness:
  "fst (plot_3d_particles no_failures loaded_x loaded_y loaded_z (Some loaded_masses) 2
          loaded_world) = Inr ()
   \<and> filter is_final
         (issued loaded_world
            (snd (plot_3d_particles no_failures loaded_x loaded_y loaded_z (Some loaded_masses) 2
                    loaded_world))) =
       [SaveFig ''single_nebula_1.png'', TightLayout, Show]"
proof -
  have "fst (plot_3d_particles no_failures loaded_x loaded_y loaded_z (Some loaded_masses) 2
          loaded_world) = Inr ()"
    by (simp add: run_defs)
  then show ?thesis
    using renderer_final_calls_in_order
            [where lib = no_failures and x = loaded_x and y = loaded_y and z = loaded_z
               and masses = "Some loaded_masses" and subsample = 2 and w = loaded_world]
    by (simp add: case_prod_beta)
qed

text \<open>
  C9. A run of the renderer only adds buffers to the heap: every buffer that existed before
  the call is unchanged after it, so every array of the caller (its \<open>x\<close>, \<open>y\<close>, \<open>z\<close> and
  \<open>masses\<close> among them) has the same shape and the same elements after the call as before.
\<close>

theorem plot_3d_particles_keeps_arrays:
  "case plot_3d_particles lib x y z masses subsample w of
     (r, w') \<Rightarrow>
       prefix (heap w) (heap w') \<and>
       (\<forall>a. base a < length (heap w) \<longrightarrow> array_value (heap w') a = array_value (heap w) a)"
proof -
  obtain r w' where run: "plot_3d_particles lib x y z masses subsample w = (r, w')"
    by force
  from plot_run [OF run] obtain bs pre where
    "w' = w\<lparr>heap := heap w @ bs, trace := trace w @ pre\<rparr>"
    by blast
  then show ?thesis
    by (simp add: run array_value_def elems_append)
qed

theorem plot_3d_particles_keeps_arrays_witness:
  "base loaded_masses < length (heap loaded_world)
   \<and> array_value
       (heap (snd (plot_3d_particles no_failures loaded_x loaded_y loaded_z (Some loaded_masses) 2
                     loaded_world))) loaded_masses =
     ([3], [Fin 2, Fin 4, Fin 8])"
proof -
  have "base loaded_masses < length (heap loaded_world)"
    by (simp add: loaded_masses_def loaded_world_def)
  moreover have "array_value (heap loaded_world) loaded_masses = ([3], [Fin 2, Fin 4, Fin 8])"
    by (simp add: array_value_def elems_def loaded_masses_def loaded_world_def upt_conv_Cons)
  ultimately show ?thesis
    using plot_3d_particles_keeps_arrays
            [where lib = no_failures and x = loaded_x and y = loaded_y and z = loaded_z
               and masses = "Some loaded_masses" and subsample = 2 and w = loaded_world]
    by (simp add: case_prod_beta)
qed

section \<open>Slicing\<close>

lemma is_1dE:
  assumes "is_1d a"
  obtains n st where "shape a = [n]" and "strides a = [st]"
  using assms by (auto simp: is_1d_def length_Suc_conv)

lemma elems_1d:
  "shape a = [n] \<Longrightarrow> strides a = [st] \<Longrightarrow>
   elems h a = map (\<lambda>i. (h ! base a) ! (offset a + i * st)) [0..<n]"
  by (simp add: elems_def comp_def)

lemma ceil_div:
  assumes "0 < k"
  shows "int ((n + k - 1) div k) = \<lceil>real n / real k\<rceil>"
proof -
  define q where "q = (n + k - 1) div k"
  define m where "m = (n + k - 1) mod k"
  have 1: "n + k - 1 = k * q + m" by (simp add: q_def m_def)
  have 2: "m < k" using assms by (simp add: m_def)
  have "int (n + k - 1) = int k * int q + int m"
    using 1 by (metis of_nat_add of_nat_mult)
  then have "- int n = int k * (- int q) + (int k - 1 - int m)"
    using assms by (simp add: algebra_simps)
  then have "(- int n) div int k = - int q"
    by (rule int_div_pos_eq) (use 2 in auto)
  moreover have "\<lceil>real n / real k\<rceil> = - ((- int n) div int k)"
    using ceiling_divide_eq_div [of "int n" "int k"] by simp
  ultimately show ?thesis by (simp add: q_def)
qed

lemma strided_index:
  assumes "0 < k" and "j < (n + k - 1) div k"
  shows "j * k < (n::nat)"
proof -
  have "Suc j \<le> (n + k - 1) div k" using assms by simp
  then have "Suc j * k \<le> ((n + k - 1) div k) * k" by (rule mult_le_mono1)
  also have "\<dots> \<le> n + k - 1" by simp
  finally show ?thesis using assms by simp
qed

lemma slice_step_1d:
  assumes "shape a = [n]" and "strides a = [st]" and "0 < k"
  shows "slice_step a k = Inr (a\<lparr>shape := [(n + k - 1) div k], strides := [st * k]\<rparr>)"
    and "elems h (a\<lparr>shape := [(n + k - 1) div k], strides := [st * k]\<rparr>) =
         spec_subsample (elems h a) (int k)"
proof -
  show "slice_step a k = Inr (a\<lparr>shape := [(n + k - 1) div k], strides := [st * k]\<rparr>)"
    using assms by (simp add: slice_step_def)
  have count: "nat \<lceil>real n / real k\<rceil> = (n + k - 1) div k"
    using ceil_div [OF \<open>0 < k\<close>, of n] by linarith
  have "elems h (a\<lparr>shape := [(n + k - 1) div k], strides := [st * k]\<rparr>) =
        map (\<lambda>j. (h ! base a) ! (offset a + j * (st * k))) [0..<(n + k - 1) div k]"
    by (simp add: elems_1d)
  also have "\<dots> = map (\<lambda>j. elems h a ! (j * k)) [0..<(n + k - 1) div k]"
    using assms strided_index [OF \<open>0 < k\<close>]
    by (simp add: elems_1d [OF assms(1,2)] ac_simps)
  also have "\<dots> = spec_subsample (elems h a) (int k)"
    using assms by (simp add: spec_subsample_def elems_1d [OF assms(1,2)] count)
  finally show "elems h (a\<lparr>shape := [(n + k - 1) div k], strides := [st * k]\<rparr>) =
         spec_subsample (elems h a) (int k)" .
qed

lemma slice_step_spec:
  assumes "is_1d a" and "0 < k"
  shows "\<exists>a'. slice_step a k = Inr a' \<and> (\<forall>h. elems h a' = spec_subsample (elems h a) (int k))"
proof -
  from \<open>is_1d a\<close> obtain n st where "shape a = [n]" "strides a = [st]"
    by (rule is_1dE)
  from slice_step_1d [OF this \<open>0 < k\<close>] show ?thesis
    by blast
qed

lemma spec_subsample_one: "spec_subsample vs 1 = vs"
  by (simp add: spec_subsample_def map_nth)

lemma length_spec_subsample:
  assumes "1 \<le> k"
  shows "int (length (spec_subsample vs k)) = \<lceil>real (length vs) / real_of_int k\<rceil>"
proof -
  have "0 \<le> real (length vs) / real_of_int k"
    using assms by simp
  then have "0 \<le> \<lceil>real (length vs) / real_of_int k\<rceil>"
    by linarith
  then show ?thesis
    by (simp add: spec_subsample_def)
qed

lemma is_1d_loaded [simp]:
  "is_1d loaded_x" "is_1d loaded_y" "is_1d loaded_z" "is_1d loaded_masses"
  by (simp_all add: is_1d_def loaded_x_def loaded_y_def loaded_z_def loaded_masses_def)

text \<open>
  C2, as amended. For every stride \<open>k \<ge> 1\<close> and arrays with one axis, lines 81 to 86 return
  arrays whose elements are those at the indices \<open>0, k, 2k, ...\<close> of the inputs, \<open>ceil(N/k)\<close>
  of them for an input of length \<open>N\<close>; this holds alike for \<open>x\<close>, \<open>y\<close>, \<open>z\<close> and, when
  present, \<open>masses\<close>. (For \<open>k = 1\<close> the guard skips the slicing and every element is kept.)
\<close>

theorem subsample_step_matches_spec:
  assumes "1 \<le> k" and "is_1d x" and "is_1d y" and "is_1d z"
    and "\<forall>m. masses = Some m \<longrightarrow> is_1d m"
  shows "\<exists>x' y' z' masses'.
           subsample_step x y z masses k = Inr (x', y', z', masses') \<and>
           (\<forall>h. elems h x' = spec_subsample (elems h x) k \<and>
                elems h y' = spec_subsample (elems h y) k \<and>
                elems h z' = spec_subsample (elems h z) k \<and>
                rel_option (\<lambda>m m'. elems h m' = spec_subsample (elems h m) k) masses masses' \<and>
                int (length (elems h x')) = \<lceil>real (length (elems h x)) / real_of_int k\<rceil>)"
proof (cases "k = 1")
  case True
  have "rel_option (\<lambda>m m'. elems h m' = elems h m) masses masses" for h
    by (cases masses) simp_all
  with True show ?thesis
    by (simp add: subsample_step_def spec_subsample_one)
next
  case False
  with \<open>1 \<le> k\<close> have k: "1 < k" "0 < nat k" "int (nat k) = k"
    by simp_all
  from slice_step_spec [OF \<open>is_1d x\<close> k(2)] obtain x' where
    x': "slice_step x (nat k) = Inr x'" "\<And>h. elems h x' = spec_subsample (elems h x) k"
    unfolding k(3) by blast
  from slice_step_spec [OF \<open>is_1d y\<close> k(2)] obtain y' where
    y': "slice_step y (nat k) = Inr y'" "\<And>h. elems h y' = spec_subsample (elems h y) k"
    unfolding k(3) by blast
  from slice_step_spec [OF \<open>is_1d z\<close> k(2)] obtain z' where
    z': "slice_step z (nat k) = Inr z'" "\<And>h. elems h z' = spec_subsample (elems h z) k"
    unfolding k(3) by blast
  have len: "int (length (elems h x')) = \<lceil>real (length (elems h x)) / real_of_int k\<rceil>" for h
    using length_spec_subsample [OF \<open>1 \<le> k\<close>, of "elems h x"] by (simp add: x'(2))
  show ?thesis
  proof (cases masses)
    case None
    then show ?thesis
      using k(1) x' y' z' len by (simp add: subsample_step_def)
  next
    case (Some m)
    with assms(5) have "is_1d m" by simp
    from slice_step_spec [OF this k(2)] obtain m' where
      m': "slice_step m (nat k) = Inr m'" "\<And>h. elems h m' = spec_subsample (elems h m) k"
      unfolding k(3) by blast
    show ?thesis
      using Some k(1) x' y' z' m' len by (simp add: subsample_step_def)
  qed
qed

theorem subsample_step_matches_spec_witness:
  "(1::int) \<le> 2 \<and> is_1d loaded_x \<and> is_1d loaded_y \<and> is_1d loaded_z \<and> is_1d loaded_masses
   \<and> (\<exists>x' y' z' m'.
         subsample_step loaded_x loaded_y loaded_z (Some loaded_masses) 2 = Inr (x', y', z', Some m') \<and>
         elems (heap loaded_world) x' = [Fin 1, Fin 7] \<and>
         elems (heap loaded_world) y' = [Fin 2, Fin 8] \<and>
         elems (heap loaded_world) z' = [Fin 3, Fin 9] \<and>
         elems (heap loaded_world) m' = [Fin 2, Fin 8])"
proof -
  have vals:
    "spec_subsample (elems (heap loaded_world) loaded_x) 2 = [Fin 1, Fin 7]"
    "spec_subsample (elems (heap loaded_world) loaded_y) 2 = [Fin 2, Fin 8]"
    "spec_subsample (elems (heap loaded_world) loaded_z) 2 = [Fin 3, Fin 9]"
    "spec_subsample (elems (heap loaded_world) loaded_masses) 2 = [Fin 2, Fin 8]"
    by (simp_all add: spec_subsample_def run_defs)
  from subsample_step_matches_spec
         [where k = 2 and x = loaded_x and y = loaded_y and z = loaded_z
            and masses = "Some loaded_masses"]
  obtain x' y' z' masses' where
    "subsample_step loaded_x loaded_y loaded_z (Some loaded_masses) 2 = Inr (x', y', z', masses')"
    "elems (heap loaded_world) x' = spec_subsample (elems (heap loaded_world) loaded_x) 2"
    "elems (heap loaded_world) y' = spec_subsample (elems (heap loaded_world) loaded_y) 2"
    "elems (heap loaded_world) z' = spec_subsample (elems (heap loaded_world) loaded_z) 2"
    "rel_option (\<lambda>m m'. elems (heap loaded_world) m' =
        spec_subsample (elems (heap loaded_world) m) 2) (Some loaded_masses) masses'"
    by auto
  then show ?thesis
    by (auto simp: vals option_rel_Some1)
qed

text \<open>
  The claim as stated, for every stride: with stride \<open>-2\<close> the guard \<open>subsample > 1\<close> skips
  the slicing, all three elements are kept, and \<open>ceil(3 / -2)\<close> is \<open>-1\<close>.
\<close>

theorem subsample_negative_stride_counterexample:
  "subsample_step loaded_x loaded_y loaded_z (Some loaded_masses) (- 2) =
     Inr (loaded_x, loaded_y, loaded_z, Some loaded_masses)
   \<and> length (elems (heap loaded_world) loaded_x) = 3
   \<and> \<lceil>real 3 / real_of_int (- 2)\<rceil> = - 1"
  by (simp add: run_defs)

section \<open>The scatter call\<close>

lemma scatter_of_run:
  assumes "prefix pre (figure_setup @ scatter_call h x y z sz # axis_labels @ finishing n)"
    and "Scatter a \<in> set pre"
  shows "Scatter a = scatter_call h x y z sz"
proof -
  from assms have
    "Scatter a \<in> set (figure_setup @ scatter_call h x y z sz # axis_labels @ finishing n)"
    using set_mono_prefix by blast
  then show ?thesis
    by (simp add: figure_setup_def axis_labels_def finishing_def)
qed

lemma no_scatter_in_setup:
  assumes "prefix pre figure_setup"
  shows "Scatter a \<notin> set pre"
proof
  assume "Scatter a \<in> set pre"
  with assms have "Scatter a \<in> set figure_setup"
    using set_mono_prefix by blast
  then show False
    by (simp add: figure_setup_def)
qed

text \<open>What the one scatter call of a run is given.\<close>

lemma plot_scatter:
  assumes run: "plot_3d_particles lib x y z masses subsample w = (r, w')"
  shows "(\<forall>a. Scatter a \<in> set (issued w w') \<longrightarrow>
            (\<exists>x1 y1 z1 m1 sz.
               subsample_step x y z masses subsample = Inr (x1, y1, z1, m1) \<and>
               fst (point_sizes m1 w) = Inr sz \<and>
               Scatter a = scatter_call (heap w') x1 y1 z1 sz))
         \<and> (r = Inr () \<longrightarrow> (\<exists>a. Scatter a \<in> set (issued w w')))"
proof -
  from plot_run [OF run] obtain bs pre where
    w': "w' = w\<lparr>heap := heap w @ bs, trace := trace w @ pre\<rparr>" and
    pre: "(\<exists>e. r = Inl e) \<and> prefix pre figure_setup \<or>
     (\<exists>x1 y1 z1 m1 sz n.
        subsample_step x y z masses subsample = Inr (x1, y1, z1, m1) \<and>
        point_sizes m1 w = (Inr sz, w\<lparr>heap := heap w @ bs\<rparr>) \<and>
        prefix pre (figure_setup @ scatter_call (heap w @ bs) x1 y1 z1 sz # axis_labels @ finishing n) \<and>
        (r = Inr () \<longrightarrow> len x1 = Inr n \<and>
           pre = figure_setup @ scatter_call (heap w @ bs) x1 y1 z1 sz # axis_labels @ finishing n))"
    by blast
  from pre show ?thesis
  proof
    assume "(\<exists>e. r = Inl e) \<and> prefix pre figure_setup"
    then show ?thesis
      using no_scatter_in_setup [of pre] by (auto simp: w')
  next
    assume "\<exists>x1 y1 z1 m1 sz n.
        subsample_step x y z masses subsample = Inr (x1, y1, z1, m1) \<and>
        point_sizes m1 w = (Inr sz, w\<lparr>heap := heap w @ bs\<rparr>) \<and>
        prefix pre (figure_setup @ scatter_call (heap w @ bs) x1 y1 z1 sz # axis_labels @ finishing n) \<and>
        (r = Inr () \<longrightarrow> len x1 = Inr n \<and>
           pre = figure_setup @ scatter_call (heap w @ bs) x1 y1 z1 sz # axis_labels @ finishing n)"
    then obtain x1 y1 z1 m1 sz n where
      sub: "subsample_step x y z masses subsample = Inr (x1, y1, z1, m1)" and
      ps: "point_sizes m1 w = (Inr sz, w\<lparr>heap := heap w @ bs\<rparr>)" and
      p: "prefix pre (figure_setup @ scatter_call (heap w @ bs) x1 y1 z1 sz # axis_labels @ finishing n)" and
      q: "r = Inr () \<longrightarrow>
           pre = figure_setup @ scatter_call (heap w @ bs) x1 y1 z1 sz # axis_labels @ finishing n"
      by blast
    have "Scatter a = scatter_call (heap w') x1 y1 z1 sz" if "Scatter a \<in> set pre" for a
      using scatter_of_run [OF p that] by (simp add: w')
    moreover have "\<exists>a. Scatter a \<in> set pre" if "r = Inr ()"
      using q that by (auto simp: scatter_call_def)
    ultimately show ?thesis
      using sub ps by (auto simp: w')
  qed
qed

text \<open>
  C10. For every \<open>subsample \<le> 1\<close>, zero and negative values included, lines 81 to 86 return
  the four arrays as they were given, and the scatter call of the run (there is one if the
  run returns normally) is given all the elements of \<open>x\<close>, \<open>y\<close> and \<open>z\<close>.
\<close>

theorem no_subsampling_at_or_below_one:
  assumes "subsample \<le> 1"
    and "base x < length (heap w)" and "base y < length (heap w)" and "base z < length (heap w)"
  shows "subsample_step x y z masses subsample = Inr (x, y, z, masses) \<and>
    (case plot_3d_particles lib x y z masses subsample w of
       (r, w') \<Rightarrow>
         (\<forall>a. Scatter a \<in> set (issued w w') \<longrightarrow>
            arg_xs a = elems (heap w) x \<and> arg_ys a = elems (heap w) y \<and>
            arg_zs a = elems (heap w) z) \<and>
         (r = Inr () \<longrightarrow> (\<exists>a. Scatter a \<in> set (issued w w'))))"
proof -
  have sub: "subsample_step x y z masses subsample = Inr (x, y, z, masses)"
    using assms(1) by (simp add: subsample_step_def)
  obtain r w' where run: "plot_3d_particles lib x y z masses subsample w = (r, w')"
    by force
  from plot_run [OF run] obtain bs where heap: "heap w' = heap w @ bs"
    by auto
  have "arg_xs a = elems (heap w) x \<and> arg_ys a = elems (heap w) y \<and> arg_zs a = elems (heap w) z"
    if "Scatter a \<in> set (issued w w')" for a
  proof -
    from plot_scatter [OF run] that sub obtain sz where
      "Scatter a = scatter_call (heap w') x y z sz"
      by auto
    then show ?thesis
      using assms(2-4) by (simp add: scatter_call_def heap elems_append)
  qed
  then show ?thesis
    using sub plot_scatter [OF run] by (simp add: run)
qed

theorem no_subsampling_at_or_below_one_witness:
  "(- 3::int) \<le> 1 \<and> base loaded_x < length (heap loaded_world)
   \<and> base loaded_y < length (heap loaded_world) \<and> base loaded_z < length (heap loaded_world)
   \<and> fst (plot_3d_particles no_failures loaded_x loaded_y loaded_z (Some loaded_masses) (- 3)
            loaded_world) = Inr ()
   \<and> subsample_step loaded_x loaded_y loaded_z (Some loaded_masses) (- 3) =
       Inr (loaded_x, loaded_y, loaded_z, Some loaded_masses)
   \<and> elems (heap loaded_world) loaded_x = [Fin 1, Fin 4, Fin 7]"
proof -
  have "fst (plot_3d_particles no_failures loaded_x loaded_y loaded_z (Some loaded_masses) (- 3)
            loaded_world) = Inr ()"
    by (simp add: run_defs)
  moreover have "base loaded_x < length (heap loaded_world)"
    "base loaded_y < length (heap loaded_world)" "base loaded_z < length (heap loaded_world)"
    "elems (heap loaded_world) loaded_x = [Fin 1, Fin 4, Fin 7]"
    by (simp_all add: run_defs)
  ultimately show ?thesis
    using no_subsampling_at_or_below_one
            [where subsample = "- 3" and x = loaded_x and y = loaded_y and z = loaded_z
                 and masses = "Some loaded_masses" and w = loaded_world and lib = no_failures]
    by simp
qed

section \<open>The size computation\<close>

lemma fmaximum_Fin:
  assumes "fmaximum v u = Fin b"
  shows "(v = NInf \<or> (\<exists>a. v = Fin a \<and> a \<le> b)) \<and> (u = NInf \<or> (\<exists>a. u = Fin a \<and> a \<le> b))"
  using assms by (cases v; cases u) auto

lemma fmaximum_NInf:
  assumes "fmaximum v u = NInf"
  shows "v = NInf \<and> u = NInf"
  using assms by (cases v; cases u) auto

lemma foldl_fmaximum_bound:
  assumes "foldl fmaximum v rest = Fin mx"
  shows "\<forall>u\<in>set (v # rest). u = NInf \<or> (\<exists>a. u = Fin a \<and> a \<le> mx)"
  using assms
proof (induction rest arbitrary: v)
  case Nil
  then show ?case by simp
next
  case (Cons u rest)
  from Cons.prems have "foldl fmaximum (fmaximum v u) rest = Fin mx"
    by simp
  from Cons.IH [OF this] have
    acc: "fmaximum v u = NInf \<or> (\<exists>a. fmaximum v u = Fin a \<and> a \<le> mx)"
    and rest: "\<forall>t\<in>set rest. t = NInf \<or> (\<exists>a. t = Fin a \<and> a \<le> mx)"
    by simp_all
  from acc have "(v = NInf \<or> (\<exists>a. v = Fin a \<and> a \<le> mx)) \<and> (u = NInf \<or> (\<exists>a. u = Fin a \<and> a \<le> mx))"
  proof
    assume "fmaximum v u = NInf"
    then show ?thesis
      using fmaximum_NInf by blast
  next
    assume "\<exists>a. fmaximum v u = Fin a \<and> a \<le> mx"
    then obtain b where "fmaximum v u = Fin b" "b \<le> mx"
      by blast
    with fmaximum_Fin [of v u b] show ?thesis
      by force
  qed
  with rest show ?case
    by simp
qed

lemma np_max_bound:
  assumes "np_max vs = Inr (Fin mx)" and "Fin a \<in> set vs"
  shows "a \<le> mx"
proof -
  from assms(1) obtain v rest where "vs = v # rest" "foldl fmaximum v rest = Fin mx"
    by (auto simp: np_max_def split: list.splits)
  with foldl_fmaximum_bound [of v rest mx] assms(2) show ?thesis
    by auto
qed

lemma foldl_fmaximum_zero:
  "\<forall>v\<in>set rest. v = Fin 0 \<Longrightarrow> foldl fmaximum (Fin 0) rest = Fin 0"
  by (induction rest) simp_all

lemma np_max_zero:
  assumes "vs \<noteq> []" and "\<forall>v\<in>set vs. v = Fin 0"
  shows "np_max vs = Inr (Fin 0)"
  using assms by (cases vs) (simp_all add: np_max_def foldl_fmaximum_zero)

lemma elems_fresh:
  assumes "length vs = n"
  shows "elems (h @ vs # bs) \<lparr>base = length h, offset = 0, shape = [n], strides = [1]\<rparr> = vs"
  using assms map_nth [of vs] by (auto simp: elems_def comp_def)

text \<open>The size computation on an array with one axis whose maximum exists.\<close>

lemma point_sizes_Some:
  assumes "is_1d m" and "np_max (elems (heap w) m) = Inr mx"
  shows "\<exists>r w'. point_sizes (Some m) w = (Inr (Array r), w') \<and>
           elems (heap w') r =
             map (\<lambda>v. fadd (Fin 0.1) (fmul (Fin 4.9) (fdiv v mx))) (elems (heap w) m)"
proof -
  from \<open>is_1d m\<close> obtain n st where m: "shape m = [n]" "strides m = [st]"
    by (rule is_1dE)
  define vs where "vs = elems (heap w) m"
  have n: "length vs = n"
    by (simp add: vs_def elems_1d [OF m])
  define q where "q = map (\<lambda>v. fdiv v mx) vs"
  define p where "p = map (fmul (Fin 4.9)) q"
  define s where "s = map (fadd (Fin 0.1)) p"
  have 1: "elems (heap w @ [q]) \<lparr>base = length (heap w), offset = 0, shape = [n], strides = [1]\<rparr> = q"
    using elems_fresh [of q n "heap w" "[]"] n by (simp add: q_def)
  have 2: "elems (heap w @ [q, p])
             \<lparr>base = Suc (length (heap w)), offset = 0, shape = [n], strides = [1]\<rparr> = p"
    using elems_fresh [of p n "heap w @ [q]" "[]"] n by (simp add: p_def q_def)
  have 3: "elems (heap w @ [q, p, s])
             \<lparr>base = Suc (Suc (length (heap w))), offset = 0, shape = [n], strides = [1]\<rparr> = s"
    using elems_fresh [of s n "heap w @ [q, p]" "[]"] n by (simp add: s_def p_def q_def)
  have "point_sizes (Some m) w =
          (Inr (Array \<lparr>base = Suc (Suc (length (heap w))), offset = 0, shape = [n], strides = [1]\<rparr>),
           w\<lparr>heap := heap w @ [q, p, s]\<rparr>)"
    using assms(2) 1 2
    by (simp add: point_sizes_def ufunc_def new_array_def m vs_def [symmetric] q_def [symmetric]
          p_def [symmetric] s_def [symmetric])
  moreover have "s = map (\<lambda>v. fadd (Fin 0.1) (fmul (Fin 4.9) (fdiv v mx))) vs"
    by (simp add: s_def p_def q_def)
  ultimately show ?thesis
    using 3 by (simp add: vs_def)
qed


lemma size_in_range:
  assumes "positive mx" and "0 \<le> a" and "\<forall>b. mx = Fin b \<longrightarrow> a \<le> b"
  shows "in_size_range (fadd (Fin 0.1) (fmul (Fin 4.9) (fdiv (Fin a) mx)))"
proof (cases mx)
  case (Fin b)
  with assms have b: "0 < b" "a \<le> b"
    by simp_all
  with \<open>0 \<le> a\<close> have "0 \<le> a / b" "a / b \<le> 1"
    by simp_all
  then have "0 \<le> 4.9 * (a / b)" "4.9 * (a / b) \<le> 4.9"
    by simp_all
  with Fin b show ?thesis
    by simp
next
  case PInf
  then show ?thesis by simp
next
  case NInf
  with assms show ?thesis by simp
next
  case NaN
  with assms show ?thesis by simp
qed

text \<open>
  Line 91 is a linear map of the masses: the sizes are \<open>0.1 + 4.9 * (masses[i] / max(masses))\<close>
  with the model's operations, and where the maximum is strictly positive the size of every
  finite, non-negative mass lies between 0.1 and 5.0. Nothing clamps the size of a negative
  mass.
\<close>

lemma point_sizes_formula:
  assumes "is_1d m" and "np_max (elems (heap w) m) = Inr mx" and "positive mx"
  shows "\<exists>r w'. point_sizes (Some m) w = (Inr (Array r), w') \<and>
           elems (heap w') r =
             map (\<lambda>v. fadd (Fin 0.1) (fmul (Fin 4.9) (fdiv v mx))) (elems (heap w) m) \<and>
           (\<forall>i<length (elems (heap w) m). \<forall>a.
              elems (heap w) m ! i = Fin a \<and> 0 \<le> a \<longrightarrow> in_size_range (elems (heap w') r ! i))"
proof -
  from point_sizes_Some [OF assms(1,2)] obtain r w' where
    run: "point_sizes (Some m) w = (Inr (Array r), w')" and
    vals: "elems (heap w') r =
             map (\<lambda>v. fadd (Fin 0.1) (fmul (Fin 4.9) (fdiv v mx))) (elems (heap w) m)"
    by blast
  have "in_size_range (elems (heap w') r ! i)"
    if i: "i < length (elems (heap w) m)" and a: "elems (heap w) m ! i = Fin a" "0 \<le> a" for i a
  proof -
    from i a(1) have "Fin a \<in> set (elems (heap w) m)"
      by (metis nth_mem)
    then have "\<forall>b. mx = Fin b \<longrightarrow> a \<le> b"
      using np_max_bound assms(2) by blast
    from size_in_range [OF \<open>positive mx\<close> \<open>0 \<le> a\<close> this] show ?thesis
      using i a(1) by (simp add: vals)
  qed
  with run vals show ?thesis
    by blast
qed

text \<open>
  C3. The sizes do not all lie in the range 0.1 to 5.0 that the claim and the comment at line
  88 state: for the masses \<open>-1\<close> and 2 the maximum is 2, strictly positive, the size
  computation returns normally, and the first size is \<open>0.1 + 4.9 * (-1 / 2) = -2.35\<close>.
\<close>

theorem point_sizes_negative_mass_out_of_range:
  "np_max (elems (heap mass_world) signed_masses) = Inr (Fin 2)
   \<and> positive (Fin 2)
   \<and> fst (point_sizes (Some signed_masses) mass_world) =
       Inr (Array \<lparr>base = 5, offset = 0, shape = [2], strides = [1]\<rparr>)
   \<and> elems (heap (snd (point_sizes (Some signed_masses) mass_world)))
        \<lparr>base = 5, offset = 0, shape = [2], strides = [1]\<rparr> = [Fin (- 2.35), Fin 5]
   \<and> \<not> in_size_range (Fin (- 2.35))"
  by (simp add: run_defs mass_world_def signed_masses_def)

text \<open>
  C7, as amended. If the mass array (one axis) is not empty and every element is zero, the
  size computation divides zero by zero: it returns normally, and every size is
  not-a-number.
\<close>

theorem point_sizes_all_zero:
  assumes "is_1d m" and "elems (heap w) m \<noteq> []" and "\<forall>v\<in>set (elems (heap w) m). v = Fin 0"
  shows "\<exists>r w'. point_sizes (Some m) w = (Inr (Array r), w') \<and>
           elems (heap w') r = replicate (length (elems (heap w) m)) NaN"
proof -
  from point_sizes_Some [OF assms(1) np_max_zero [OF assms(2,3)]] obtain r w' where
    run: "point_sizes (Some m) w = (Inr (Array r), w')" and
    vals: "elems (heap w') r =
             map (\<lambda>v. fadd (Fin 0.1) (fmul (Fin 4.9) (fdiv v (Fin 0)))) (elems (heap w) m)"
    by blast
  have "map (\<lambda>v. fadd (Fin 0.1) (fmul (Fin 4.9) (fdiv v (Fin 0)))) (elems (heap w) m) =
        map (\<lambda>v. NaN) (elems (heap w) m)"
  proof (rule map_cong)
    fix v assume "v \<in> set (elems (heap w) m)"
    with assms(3) have "v = Fin 0" by blast
    then show "fadd (Fin 0.1) (fmul (Fin 4.9) (fdiv v (Fin 0))) = NaN"
      by simp
  qed simp
  with run vals show ?thesis
    by (simp add: map_replicate_const)
qed

theorem point_sizes_all_zero_witness:
  "is_1d zero_masses \<and> elems (heap mass_world) zero_masses = [Fin 0, Fin 0, Fin 0]
   \<and> (\<exists>r w'. point_sizes (Some zero_masses) mass_world = (Inr (Array r), w') \<and>
         elems (heap w') r = [NaN, NaN, NaN])"
proof -
  have z: "elems (heap mass_world) zero_masses = [Fin 0, Fin 0, Fin 0]"
    by (simp add: elems_def mass_world_def zero_masses_def upt_conv_Cons)
  have one: "is_1d zero_masses"
    by (simp add: is_1d_def zero_masses_def)
  have some: "elems (heap mass_world) zero_masses \<noteq> []"
    by (simp add: z)
  have zeros: "\<forall>v\<in>set (elems (heap mass_world) zero_masses). v = Fin 0"
    by (simp add: z)
  from point_sizes_all_zero [OF one some zeros] obtain r w' where
    run: "point_sizes (Some zero_masses) mass_world = (Inr (Array r), w')" and
    "elems (heap w') r = replicate (length (elems (heap mass_world) zero_masses)) NaN"
    by blast
  then have "elems (heap w') r = [NaN, NaN, NaN]"
    by (simp add: z)
  with run one z show ?thesis
    by blast
qed

text \<open>
  The claim as stated covers the empty mass array, all of whose elements are zero: there
  \<open>np.max\<close> raises and no sizes are computed.
\<close>

theorem point_sizes_empty_masses_counterexample:
  "elems (heap mass_world) empty_masses = []
   \<and> point_sizes (Some empty_masses) mass_world = (Inl ValueError, mass_world)"
  by (simp add: run_defs mass_world_def empty_masses_def)

section \<open>The loader's runs\<close>

lemma read_all_eq:
  "read_all d w =
   (if dshape d = [] then (Inl ValueError, w)
    else (Inr \<lparr>base = length (heap w), offset = 0, shape = dshape d, strides = contiguous (dshape d)\<rparr>,
          w\<lparr>heap := heap w @ [ddata d]\<rparr>))"
  by (simp add: read_all_def new_array_def)

lemma elems_new:
  "elems (h @ vs # bs) \<lparr>base = length h, offset = off, shape = shp, strides = sts\<rparr> =
   map (\<lambda>p. vs ! p) (positions shp sts off)"
  by (simp add: elems_def)

lemma elems_beyond:
  "length h \<le> base a \<Longrightarrow>
   elems (h @ bs) a = map (\<lambda>p. bs ! (base a - length h) ! p) (positions (shape a) (strides a) (offset a))"
  by (simp add: elems_def nth_append)

lemma outcome_load:
  assumes "files w fn = files v fn"
  shows "outcome (load_particle_data fn pt w) = outcome (load_particle_data fn pt v)"
  using assms
  apply (simp add: load_particle_data_def with_File_def split: option.splits)
  apply (simp add: bindE_def liftE_def getitem_def read_all_eq returnE_def ufunc_def new_array_def
      column_def outcome_def returned_def array_value_def elems_beyond
      split: option.splits list.splits)
  done


lemma concat_upt_blocks:
  "concat (map (\<lambda>i. [off + i * p ..< off + i * p + p]) [0..<n]) = [off ..< off + n * p]"
proof (induction n)
  case 0
  show ?case by simp
next
  case (Suc n)
  have "[off ..< off + Suc n * p] = [off ..< off + n * p] @ [off + n * p ..< off + n * p + p]"
    using upt_add_eq_append [of off "off + n * p" p] by (simp add: ac_simps)
  with Suc show ?case by simp
qed

lemma positions_contiguous:
  "positions shp (contiguous shp) off = [off ..< off + prod_list shp]"
proof (induction shp arbitrary: off)
  case Nil
  show ?case by simp
next
  case (Cons n ns)
  show ?case
    using concat_upt_blocks [of off "prod_list ns" n]
    by (simp add: Cons.IH mult.commute)
qed

lemma elems_whole:
  "elems (h @ vs # bs) \<lparr>base = length h, offset = 0, shape = shp, strides = contiguous shp\<rparr> =
   map ((!) vs) [0..<prod_list shp]"
  by (simp add: elems_new positions_contiguous)

lemma bindE_liftE_Inr: "bindE (liftE (Inr v)) k = k v"
  by (rule ext) (simp add: bindE_def liftE_def)

lemma bindE_liftE_Inl: "bindE (liftE (Inl e)) k = liftE (Inl e)"
  by (rule ext) (simp add: bindE_def liftE_def)

lemma bindE_returnE: "bindE (returnE v) k = k v"
  by (rule ext) (simp add: bindE_def returnE_def)

lemma bindE_read_all:
  "dshape d \<noteq> [] \<Longrightarrow>
   bindE (read_all d) k =
   (\<lambda>w. k \<lparr>base = length (heap w), offset = 0, shape = dshape d, strides = contiguous (dshape d)\<rparr>
           (w\<lparr>heap := heap w @ [ddata d]\<rparr>))"
  by (rule ext) (simp add: bindE_def read_all_eq)

lemma bindE_read_scaled:
  "dshape d \<noteq> [] \<Longrightarrow>
   bindE (read_all d) (\<lambda>raw. bindE (\<lambda>w. case ufunc f raw w of (a, w') \<Rightarrow> (Inr a, w')) k) =
   (\<lambda>w. k \<lparr>base = Suc (length (heap w)), offset = 0, shape = dshape d,
             strides = contiguous (dshape d)\<rparr>
           (w\<lparr>heap := heap w @ [ddata d, map f (map ((!) (ddata d)) [0..<prod_list (dshape d)])]\<rparr>))"
  by (rule ext)
     (simp add: bindE_def read_all_eq ufunc_def new_array_def elems_whole del: contiguous.simps)

text \<open>The run of the loader on a file whose tables have the shapes it needs.\<close>

lemma load_success:
  assumes "files w fn = Some f" and "f (''PartType'' @ str_int pt) = Some g"
    and "g ''Coordinates'' = Some d" and "dshape d = n # m # ns" and "2 < m"
    and "\<forall>t. g ''Masses'' = Some t \<longrightarrow> dshape t \<noteq> []"
  shows "load_particle_data fn pt w =
    (Inr (\<lparr>base = Suc (length (heap w)), offset = 0, shape = n # ns,
           strides = m * prod_list ns # contiguous ns\<rparr>,
          \<lparr>base = Suc (length (heap w)), offset = prod_list ns, shape = n # ns,
           strides = m * prod_list ns # contiguous ns\<rparr>,
          \<lparr>base = Suc (length (heap w)), offset = 2 * prod_list ns, shape = n # ns,
           strides = m * prod_list ns # contiguous ns\<rparr>,
          map_option (\<lambda>t. \<lparr>base = Suc (Suc (length (heap w))), offset = 0, shape = dshape t,
                             strides = contiguous (dshape t)\<rparr>) (g ''Masses'')),
     w\<lparr>heap := heap w @
            [ddata d, map (\<lambda>v. fdiv v cm_per_kpc) (map ((!) (ddata d)) [0..<prod_list (dshape d)])]
            @ (case g ''Masses'' of None \<Rightarrow> [] | Some t \<Rightarrow> [ddata t]),
        io := io w @ [Open fn, Close fn]\<rparr>)"
proof -
  have nonempty: "dshape d \<noteq> []"
    using assms(4) by simp
  have start: "load_particle_data fn pt w =
      (case
         (bindE (liftE (column \<lparr>base = Suc (length (heap w)), offset = 0, shape = dshape d,
                                strides = contiguous (dshape d)\<rparr> 0)) (\<lambda>x.
          bindE (liftE (column \<lparr>base = Suc (length (heap w)), offset = 0, shape = dshape d,
                                strides = contiguous (dshape d)\<rparr> 1)) (\<lambda>y.
          bindE (liftE (column \<lparr>base = Suc (length (heap w)), offset = 0, shape = dshape d,
                                strides = contiguous (dshape d)\<rparr> 2)) (\<lambda>z.
          bindE (if g ''Masses'' \<noteq> None
                 then bindE (liftE (getitem g ''Masses'')) (\<lambda>mtable.
                      bindE (read_all mtable) (\<lambda>m. returnE (Some m)))
                 else returnE None) (\<lambda>masses.
          returnE (x, y, z, masses))))))
         (w\<lparr>handles := fn # handles w, io := io w @ [Open fn],
            heap := heap w @ [ddata d,
              map (\<lambda>v. fdiv v cm_per_kpc) (map ((!) (ddata d)) [0..<prod_list (dshape d)])]\<rparr>)
       of (r, w') \<Rightarrow> (r, w'\<lparr>handles := remove1 fn (handles w'), io := io w' @ [Close fn]\<rparr>))"
    using assms(1-3) nonempty
    by (simp add: load_particle_data_def with_File_def getitem_def bindE_liftE_Inr
          bindE_read_scaled del: contiguous.simps)
  show ?thesis
  proof (cases "g ''Masses''")
    case None
    then show ?thesis
      unfolding start using assms(4,5)
      by (simp add: column_def bindE_liftE_Inr bindE_returnE returnE_def)
  next
    case (Some t)
    with assms(6) have "dshape t \<noteq> []"
      by simp
    then show ?thesis
      unfolding start using assms(4,5) Some
      by (simp add: column_def bindE_liftE_Inr bindE_returnE returnE_def getitem_def bindE_read_all
            bindE_def)
  qed
qed


text \<open>What every run of the loader leaves of the world it started in.\<close>

lemma load_frame:
  assumes "load_particle_data fn pt w = (r, w')"
  shows "files w' = files w \<and> handles w' = handles w \<and> trace w' = trace w \<and>
         prefix (heap w) (heap w') \<and>
         io w' = io w @ (if files w fn = None then [] else [Open fn, Close fn])"
proof (cases "files w fn")
  case None
  with assms show ?thesis
    by (auto simp: load_particle_data_def with_File_def)
next
  case (Some f)
  with assms show ?thesis
    by (auto simp: load_particle_data_def with_File_def bindE_def liftE_def getitem_def read_all_eq
          returnE_def ufunc_def new_array_def column_def
          split: option.splits list.splits if_splits)
qed

lemma subsample_step_None:
  assumes "subsample_step x y z None k = Inr (x1, y1, z1, m1)"
  shows "m1 = None"
  using assms by (auto simp: subsample_step_def split: if_splits sum.splits)

text \<open>The definitions a run on the example files unfolds.\<close>

lemmas scenario_defs =
  scenario_world_def scenario_file_def scenario_coordinates_def str_int_def str_nat.simps
  bare_world_def bare_file_def bare_group_def

text \<open>
  C8. On every run of the loader, whether it returns or raises, the handles that are open
  afterwards are those that were open before: if the file was opened, the log gains its
  opening followed by its closing, and if opening failed the log gains nothing.
\<close>

theorem load_particle_data_closes_file:
  "case load_particle_data fn pt w of
     (r, w') \<Rightarrow>
       handles w' = handles w \<and>
       io w' = io w @ (if files w fn = None then [] else [Open fn, Close fn])"
proof -
  obtain r w' where run: "load_particle_data fn pt w = (r, w')"
    by force
  from load_frame [OF run] show ?thesis
    by (simp add: run)
qed

theorem load_particle_data_closes_file_witness:
  "fst (load_particle_data ''single_nebula_1.hdf5'' 0 bare_world) = Inl (KeyError ''Coordinates'')
   \<and> handles (snd (load_particle_data ''single_nebula_1.hdf5'' 0 bare_world)) = []
   \<and> io (snd (load_particle_data ''single_nebula_1.hdf5'' 0 bare_world)) =
       [Open ''single_nebula_1.hdf5'', Close ''single_nebula_1.hdf5'']"
proof -
  have "fst (load_particle_data ''single_nebula_1.hdf5'' 0 bare_world) = Inl (KeyError ''Coordinates'')"
    by (simp add: load_particle_data_def with_File_def bindE_def liftE_def getitem_def scenario_defs)
  then show ?thesis
    using load_particle_data_closes_file [where fn = "''single_nebula_1.hdf5''" and pt = 0 and w = bare_world]
    by (simp add: case_prod_beta bare_world_def)
qed

text \<open>
  C5. Loading a file and then loading it again leaves the files as they were, both times,
  and the two calls have the same outcome: the same error, or arrays of the same shapes and
  elements.
\<close>

theorem load_particle_data_repeatable:
  "case load_particle_data fn pt w of
     (r1, w1) \<Rightarrow>
       (case load_particle_data fn pt w1 of
          (r2, w2) \<Rightarrow>
            files w1 = files w \<and> files w2 = files w \<and> outcome (r1, w1) = outcome (r2, w2))"
proof -
  obtain r1 w1 where 1: "load_particle_data fn pt w = (r1, w1)"
    by force
  obtain r2 w2 where 2: "load_particle_data fn pt w1 = (r2, w2)"
    by force
  from load_frame [OF 1] have f1: "files w1 = files w"
    by simp
  from load_frame [OF 2] have f2: "files w2 = files w1"
    by simp
  from outcome_load [of w fn w1 pt] f1 have "outcome (r1, w1) = outcome (r2, w2)"
    by (simp add: 1 2)
  with f1 f2 show ?thesis
    by (simp add: 1 2)
qed

theorem load_particle_data_repeatable_witness:
  "outcome (load_particle_data ''single_nebula_1.hdf5'' 0 scenario_world) =
     Inr (([2], [Fin 1, Fin 0]), ([2], [Fin 0, Fin 1]), ([2], [Fin 0, Fin 0]), None)
   \<and> outcome (load_particle_data ''single_nebula_1.hdf5'' 0
                (snd (load_particle_data ''single_nebula_1.hdf5'' 0 scenario_world))) =
     Inr (([2], [Fin 1, Fin 0]), ([2], [Fin 0, Fin 1]), ([2], [Fin 0, Fin 0]), None)"
proof -
  have fl: "files scenario_world ''single_nebula_1.hdf5'' = Some scenario_file"
    and grp: "scenario_file (''PartType'' @ str_int 0) = Some [''Coordinates'' \<mapsto> scenario_coordinates]"
    and tbl: "[''Coordinates'' \<mapsto> scenario_coordinates] ''Coordinates'' = Some scenario_coordinates"
    and shp: "dshape scenario_coordinates = [2, 3]"
    and msk: "\<forall>t. [''Coordinates'' \<mapsto> scenario_coordinates] ''Masses'' = Some t \<longrightarrow> dshape t \<noteq> []"
    by (simp_all add: scenario_defs)
  have first: "outcome (load_particle_data ''single_nebula_1.hdf5'' 0 scenario_world) =
     Inr (([2], [Fin 1, Fin 0]), ([2], [Fin 0, Fin 1]), ([2], [Fin 0, Fin 0]), None)"
    unfolding load_success [OF fl grp tbl, where n = 2 and m = 3 and ns = "[]", OF shp _ msk, simplified]
    by (simp add: outcome_def returned_def array_value_def elems_beyond scenario_coordinates_def
          cm_per_kpc_def upt_conv_Cons)
  from load_particle_data_repeatable [where fn = "''single_nebula_1.hdf5''" and pt = 0 and w = scenario_world] first
  show ?thesis
    by (simp add: case_prod_beta)
qed

text \<open>
  C1. For a file whose group \<open>PartType<part_type>\<close> has a \<open>Coordinates\<close> table of shape
  \<open>N x 3\<close> (and whose \<open>Masses\<close> table, if there is one, is not a scalar), the loader returns
  \<open>x\<close>, \<open>y\<close>, \<open>z\<close> of length \<open>N\<close> with \<open>x[i] = raw_coords[i][0] / 3.0857e21\<close> and alike
  for \<open>y\<close> and \<open>z\<close> with columns 1 and 2, for all \<open>i < N\<close>.
\<close>

theorem load_particle_data_converts_coordinates:
  assumes "files w fn = Some f" and "f (''PartType'' @ str_int pt) = Some g"
    and "g ''Coordinates'' = Some d" and "dshape d = [n, 3]"
    and "\<forall>t. g ''Masses'' = Some t \<longrightarrow> dshape t \<noteq> []"
  shows "\<exists>x y z masses w'.
           load_particle_data fn pt w = (Inr (x, y, z, masses), w') \<and>
           length (elems (heap w') x) = n \<and> length (elems (heap w') y) = n \<and>
           length (elems (heap w') z) = n \<and>
           (\<forall>i<n. elems (heap w') x ! i = fdiv (raw_coords d i 0) cm_per_kpc \<and>
                  elems (heap w') y ! i = fdiv (raw_coords d i 1) cm_per_kpc \<and>
                  elems (heap w') z ! i = fdiv (raw_coords d i 2) cm_per_kpc)"
proof -
  define cbuf where
    "cbuf = map (\<lambda>v. fdiv v cm_per_kpc) (map ((!) (ddata d)) [0..<prod_list (dshape d)])"
  define mb where "mb = (case g ''Masses'' of None \<Rightarrow> [] | Some t \<Rightarrow> [ddata t])"
  define col where
    "col j = \<lparr>base = Suc (length (heap w)), offset = j, shape = [n], strides = [3]\<rparr>" for j :: nat
  define w' where "w' = w\<lparr>heap := heap w @ [ddata d, cbuf] @ mb, io := io w @ [Open fn, Close fn]\<rparr>"
  have run: "load_particle_data fn pt w =
      (Inr (col 0, col 1, col 2,
            map_option (\<lambda>t. \<lparr>base = Suc (Suc (length (heap w))), offset = 0, shape = dshape t,
                               strides = contiguous (dshape t)\<rparr>) (g ''Masses'')), w')"
    using load_success [OF assms(1-3), of n 3 "[]"] assms(4,5)
    by (simp add: col_def w'_def cbuf_def mb_def)
  have col: "elems (heap w') (col j) = map (\<lambda>i. fdiv (raw_coords d i j) cm_per_kpc) [0..<n]"
    if "j < 3" for j
  proof -
    have "elems (heap w') (col j) = map (\<lambda>i. cbuf ! (j + i * 3)) [0..<n]"
      by (simp add: w'_def col_def elems_beyond comp_def)
    also have "\<dots> = map (\<lambda>i. fdiv (raw_coords d i j) cm_per_kpc) [0..<n]"
    proof (rule map_cong)
      fix i assume "i \<in> set [0..<n]"
      then have "j + i * 3 < n * 3"
        using that by simp
      then show "cbuf ! (j + i * 3) = fdiv (raw_coords d i j) cm_per_kpc"
        using assms(4) by (simp add: cbuf_def raw_coords_def ac_simps)
    qed simp
    finally show ?thesis .
  qed
  show ?thesis
    using run col [of 0] col [of 1] col [of 2] by simp
qed

theorem load_particle_data_converts_coordinates_witness:
  "files scenario_world ''single_nebula_1.hdf5'' = Some scenario_file
   \<and> scenario_file (''PartType'' @ str_int 0) = Some [''Coordinates'' \<mapsto> scenario_coordinates]
   \<and> dshape scenario_coordinates = [2, 3]
   \<and> (\<exists>x y z w'.
         load_particle_data ''single_nebula_1.hdf5'' 0 scenario_world = (Inr (x, y, z, None), w') \<and>
         elems (heap w') x = [Fin 1, Fin 0] \<and> elems (heap w') y = [Fin 0, Fin 1] \<and>
         elems (heap w') z = [Fin 0, Fin 0])"
proof -
  have fl: "files scenario_world ''single_nebula_1.hdf5'' = Some scenario_file"
    and grp: "scenario_file (''PartType'' @ str_int 0) = Some [''Coordinates'' \<mapsto> scenario_coordinates]"
    and tbl: "[''Coordinates'' \<mapsto> scenario_coordinates] ''Coordinates'' = Some scenario_coordinates"
    and shp: "dshape scenario_coordinates = [2, 3]"
    and msk: "\<forall>t. [''Coordinates'' \<mapsto> scenario_coordinates] ''Masses'' = Some t \<longrightarrow> dshape t \<noteq> []"
    by (simp_all add: scenario_defs)
  have raw:
    "fdiv (raw_coords scenario_coordinates 0 0) cm_per_kpc = Fin 1"
    "fdiv (raw_coords scenario_coordinates (Suc 0) 0) cm_per_kpc = Fin 0"
    "fdiv (raw_coords scenario_coordinates 0 (Suc 0)) cm_per_kpc = Fin 0"
    "fdiv (raw_coords scenario_coordinates (Suc 0) (Suc 0)) cm_per_kpc = Fin 1"
    "fdiv (raw_coords scenario_coordinates 0 2) cm_per_kpc = Fin 0"
    "fdiv (raw_coords scenario_coordinates (Suc 0) 2) cm_per_kpc = Fin 0"
    by (simp_all add: raw_coords_def scenario_coordinates_def cm_per_kpc_def)
  from load_particle_data_converts_coordinates [OF fl grp tbl shp msk] obtain x y z ms w' where
    run: "load_particle_data ''single_nebula_1.hdf5'' 0 scenario_world = (Inr (x, y, z, ms), w')"
    and len: "length (elems (heap w') x) = 2" "length (elems (heap w') y) = 2"
      "length (elems (heap w') z) = 2"
    and vals: "\<forall>i<2. elems (heap w') x ! i = fdiv (raw_coords scenario_coordinates i 0) cm_per_kpc \<and>
                  elems (heap w') y ! i = fdiv (raw_coords scenario_coordinates i 1) cm_per_kpc \<and>
                  elems (heap w') z ! i = fdiv (raw_coords scenario_coordinates i 2) cm_per_kpc"
    by blast
  from vals have v0: "elems (heap w') x ! 0 = Fin 1" "elems (heap w') y ! 0 = Fin 0"
      "elems (heap w') z ! 0 = Fin 0"
    and v1: "elems (heap w') x ! 1 = Fin 0" "elems (heap w') y ! 1 = Fin 1"
      "elems (heap w') z ! 1 = Fin 0"
    by (simp_all add: raw)
  have two: "vs = [vs ! 0, vs ! 1]" if "length vs = 2" for vs :: "npfloat list"
    using that by (cases vs; cases "tl vs") auto
  have "elems (heap w') x = [Fin 1, Fin 0]" "elems (heap w') y = [Fin 0, Fin 1]"
    "elems (heap w') z = [Fin 0, Fin 0]"
    using two [OF len(1)] two [OF len(2)] two [OF len(3)] v0 v1 by simp_all
  moreover have "ms = None"
    using run load_success [OF fl grp tbl, where n = 2 and m = 3 and ns = "[]"] shp msk by simp
  ultimately show ?thesis
    using run fl grp shp by blast
qed

text \<open>
  C4, as amended. For a file whose particle group has a \<open>Coordinates\<close> table with two axes
  at least and three columns at least, and no \<open>Masses\<close> table, the loader returns the null
  value for masses; and every scatter call of a run of the renderer on null masses is given
  the constant size 0.1.
\<close>

theorem missing_masses_constant_size:
  assumes "files w fn = Some f" and "f (''PartType'' @ str_int pt) = Some g"
    and "g ''Coordinates'' = Some d" and "dshape d = n # m # ns" and "2 < m"
    and "g ''Masses'' = None"
  shows "(\<exists>x y z w'. load_particle_data fn pt w = (Inr (x, y, z, None), w')) \<and>
         (\<forall>lib x y z subsample v.
            case plot_3d_particles lib x y z None subsample v of
              (r, v') \<Rightarrow> \<forall>a. Scatter a \<in> set (issued v v') \<longrightarrow> arg_s a = ScalarArg (Fin 0.1))"
proof
  show "\<exists>x y z w'. load_particle_data fn pt w = (Inr (x, y, z, None), w')"
    using load_success [OF assms(1-5)] assms(6) by simp
next
  have "arg_s a = ScalarArg (Fin 0.1)"
    if run: "plot_3d_particles lib x y z None subsample v = (r, v')"
      and a: "Scatter a \<in> set (issued v v')"
    for lib x y z subsample v r v' a
  proof -
    from plot_scatter [OF run] a obtain x1 y1 z1 m1 sz where
      sub: "subsample_step x y z None subsample = Inr (x1, y1, z1, m1)" and
      sz: "fst (point_sizes m1 v) = Inr sz" and
      call: "Scatter a = scatter_call (heap v') x1 y1 z1 sz"
      by blast
    from subsample_step_None [OF sub] sz have "sz = Scalar (Fin 0.1)"
      by (simp add: point_sizes_def)
    with call show ?thesis
      by (simp add: scatter_call_def)
  qed
  then show "\<forall>lib x y z subsample v.
            case plot_3d_particles lib x y z None subsample v of
              (r, v') \<Rightarrow> \<forall>a. Scatter a \<in> set (issued v v') \<longrightarrow> arg_s a = ScalarArg (Fin 0.1)"
    by (auto split: prod.splits)
qed

theorem missing_masses_constant_size_witness:
  "files scenario_world ''single_nebula_1.hdf5'' = Some scenario_file
   \<and> scenario_file (''PartType'' @ str_int 0) = Some [''Coordinates'' \<mapsto> scenario_coordinates]
   \<and> [''Coordinates'' \<mapsto> scenario_coordinates] ''Masses'' = None
   \<and> dshape scenario_coordinates = [2, 3]
   \<and> (\<exists>x y z w'.
         load_particle_data ''single_nebula_1.hdf5'' 0 scenario_world = (Inr (x, y, z, None), w'))
   \<and> issued loaded_world
        (snd (plot_3d_particles no_failures loaded_x loaded_y loaded_z None 1 loaded_world)) ! 2 =
       Scatter \<lparr>arg_xs = [Fin 1, Fin 4, Fin 7], arg_ys = [Fin 2, Fin 5, Fin 8],
                arg_zs = [Fin 3, Fin 6, Fin 9], arg_s = ScalarArg (Fin 0.1),
                arg_c = ''royalblue'', arg_alpha = 0.3, arg_edgecolors = ''none'',
                arg_depthshade = True\<rparr>"
proof -
  have fl: "files scenario_world ''single_nebula_1.hdf5'' = Some scenario_file"
    and grp: "scenario_file (''PartType'' @ str_int 0) = Some [''Coordinates'' \<mapsto> scenario_coordinates]"
    and tbl: "[''Coordinates'' \<mapsto> scenario_coordinates] ''Coordinates'' = Some scenario_coordinates"
    and shp: "dshape scenario_coordinates = [2, 3]"
    and msk: "[''Coordinates'' \<mapsto> scenario_coordinates] ''Masses'' = None"
    by (simp_all add: scenario_defs)
  have plot: "issued loaded_world
        (snd (plot_3d_particles no_failures loaded_x loaded_y loaded_z None 1 loaded_world)) ! 2 =
       Scatter \<lparr>arg_xs = [Fin 1, Fin 4, Fin 7], arg_ys = [Fin 2, Fin 5, Fin 8],
                arg_zs = [Fin 3, Fin 6, Fin 9], arg_s = ScalarArg (Fin 0.1),
                arg_c = ''royalblue'', arg_alpha = 0.3, arg_edgecolors = ''none'',
                arg_depthshade = True\<rparr>"
    by (simp add: run_defs)
  from missing_masses_constant_size [OF fl grp tbl shp _ msk] have
    "\<exists>x y z w'. load_particle_data ''single_nebula_1.hdf5'' 0 scenario_world = (Inr (x, y, z, None), w')"
    by simp
  with fl grp msk shp plot show ?thesis
    by blast
qed

text \<open>
  The claim as stated, for every file whose group lacks \<open>Masses\<close>: if the group lacks
  \<open>Coordinates\<close> too, the loader raises and returns nothing.
\<close>

theorem missing_coordinates_counterexample:
  "files bare_world ''single_nebula_1.hdf5'' = Some bare_file
   \<and> bare_file ''PartType0'' = Some bare_group
   \<and> bare_group ''Masses'' = None
   \<and> fst (load_particle_data ''single_nebula_1.hdf5'' 0 bare_world) = Inl (KeyError ''Coordinates'')"
  by (simp add: load_particle_data_def with_File_def bindE_def liftE_def getitem_def scenario_defs)

end
